theory Spec2Isabelle
  imports Main
begin

section \<open>The value model and the virtual tree\<close>

text \<open>
  The file under verification is \<^verbatim>\<open>src/ui/markdown.tsx\<close>: the recursive renderer
  \<^verbatim>\<open>Lit\<close>, the \<^verbatim>\<open>Markdown\<close> component with its paragraph unwrapping, and the hook
  \<^verbatim>\<open>useIndexBackedState\<close>.

  Dates, durations, links and HTML elements are opaque to the renderer: it hands them to
  a formatter or embeds them. They are represented by handles.  A number is given by an
  integer.  JavaScript holds every integer of magnitude below \<open>2^53\<close> exactly and prints
  it in plain decimal; what it prints for any other number is not computed here but
  taken as a parameter.
\<close>

type_synonym date = nat
type_synonym duration = nat
type_synonym link = nat
type_synonym html = nat

text \<open>
  A \<^verbatim>\<open>Literal\<close> as the renderer can meet it at run time.  \<open>Undefined\<close> is JavaScript's
  \<^verbatim>\<open>undefined\<close>, which is what reading a missing property gives.  An \<open>Object\<close> carries
  \<^verbatim>\<open>value.constructor.name\<close> (\<open>None\<close> when there is no constructor) and its own enumerable
  entries in order.  \<open>Unrecognized\<close> stands for any other shape and carries what
  \<^verbatim>\<open>JSON.stringify\<close> returns for it (\<open>None\<close> for \<^verbatim>\<open>undefined\<close>).
\<close>

datatype literal =
    Null
  | Undefined
  | String string
  | Number int
  | Boolean bool
  | Date date
  | Duration duration
  | Link link
  | Html html
  | Function
  | Array "literal list"
  | Object "string option" "(string \<times> literal) list"
  | Unrecognized "string option"

text \<open>
  The virtual tree that a component returns.  \<open>Text\<close> is a string child, \<open>Skip\<close> a child
  that is \<^verbatim>\<open>null\<close> or \<^verbatim>\<open>undefined\<close> (preact renders nothing for it), \<open>Element\<close> a host
  element with its tag and class.  \<open>Markdown\<close> and \<open>EmbedHtml\<close> are the component nodes
  \<^verbatim>\<open><Markdown content sourcePath inline/>\<close> and \<^verbatim>\<open><EmbedHtml element/>\<close> with their props.
\<close>

datatype vnode =
    Text string
  | Skip
  | Fragment "vnode list"
  | Element string string "vnode list"
  | Markdown string string bool
  | EmbedHtml html

record settings =
  maxRecursiveRenderDepth :: int
  renderNullAs :: string
  refreshEnabled :: bool

text \<open>
  What \<^verbatim>\<open>Lit\<close> reads from \<^verbatim>\<open>DataviewContext\<close> and from its imports: the settings, and the
  formatters of \<^verbatim>\<open>util/normalize\<close>, \<^verbatim>\<open>util/locale\<close> and the link class, which are not
  part of the file and are taken as parameters.  \<open>large_number\<close> is the text JavaScript
  gives for a number of magnitude \<open>2^53\<close> or more, a parameter as well.
\<close>

record DataviewContexts =
  settings :: settings
  currentLocale :: string
  renderMinimalDate :: "date \<Rightarrow> settings \<Rightarrow> string \<Rightarrow> string"
  renderMinimalDuration :: "duration \<Rightarrow> string"
  markdown :: "link \<Rightarrow> string"
  large_number :: "int \<Rightarrow> string"

subsection \<open>JavaScript primitives used by the renderer\<close>

definition digit :: "nat \<Rightarrow> char" where
  "digit n = ''0123456789'' ! n"

fun decimal :: "nat \<Rightarrow> string" where
  "decimal n = (if n < 10 then [digit n] else decimal (n div 10) @ [digit (n mod 10)])"

declare decimal.simps [simp del]

text \<open>
  \<^verbatim>\<open>"" + value\<close> for a number.  Below \<open>2^53 = 9007199254740992\<close> in magnitude the text
  is the plain decimal one; beyond, where JavaScript rounds to the nearest number it can
  hold and turns to the exponent form from \<open>10^21\<close>, the text is what the parameter
  \<open>print\<close> gives.
\<close>

definition number_string :: "(int \<Rightarrow> string) \<Rightarrow> int \<Rightarrow> string" where
  "number_string print i =
     (if \<bar>i\<bar> < 9007199254740992
      then (if i < 0 then CHR ''-'' # decimal (nat (- i)) else decimal (nat i))
      else print i)"

text \<open>\<^verbatim>\<open>"" + value\<close> for a boolean.\<close>

definition boolean_string :: "bool \<Rightarrow> string" where
  "boolean_string b = (if b then ''true'' else ''false'')"

text \<open>
  \<^verbatim>\<open>Object.entries(value)\<close>: one two-element array \<^verbatim>\<open>[key, value]\<close> for each own
  enumerable property, in order.
\<close>

definition Object_entries :: "(string \<times> literal) list \<Rightarrow> literal list list" where
  "Object_entries es = map (\<lambda>(k, v). [String k, v]) es"

text \<open>\<^verbatim>\<open>Object.keys(value)\<close>.\<close>

definition Object_keys :: "(string \<times> literal) list \<Rightarrow> string list" where
  "Object_keys es = map fst es"

text \<open>
  Reading the property \<open>p\<close> of a two-element array, as in \<^verbatim>\<open>entry.key\<close>.  Such an array
  has the properties \<^verbatim>\<open>0\<close>, \<^verbatim>\<open>1\<close> and \<^verbatim>\<open>length\<close>; any other name that
  \<^verbatim>\<open>Array.prototype\<close> does not provide reads as \<^verbatim>\<open>undefined\<close>.  The prototype's methods
  are not needed here and are left out.
\<close>

definition get_property :: "literal list \<Rightarrow> string \<Rightarrow> literal" where
  "get_property xs p =
     (if p = ''0'' \<and> 0 < length xs then xs ! 0
      else if p = ''1'' \<and> 1 < length xs then xs ! 1
      else if p = ''length'' then Number (int (length xs))
      else Undefined)"

text \<open>
  An expression child \<^verbatim>\<open>{e}\<close> of a JSX element: a string or a number becomes text,
  and preact renders nothing for \<^verbatim>\<open>null\<close>, \<^verbatim>\<open>undefined\<close>, booleans, functions and
  objects that are not virtual nodes.
\<close>

fun child :: "(int \<Rightarrow> string) \<Rightarrow> literal \<Rightarrow> vnode" where
  "child print (String s) = Text s"
| "child print (Number i) = Text (number_string print i)"
| "child print (Array xs) = Fragment (map (child print) xs)"
| "child print _ = Skip"

text \<open>
  Modelled from the spec: the tests of \<^verbatim>\<open>Values\<close> (\<^verbatim>\<open>data-model/value\<close>) and of
  \<^verbatim>\<open>DataArray\<close> (\<^verbatim>\<open>api/data-array\<close>) are not in the file.  The spec gives a closed variant
  decided by total, mutually exclusive tests; each test recognises its constructor.
  JavaScript's two absent values, \<^verbatim>\<open>null\<close> and \<^verbatim>\<open>undefined\<close>, both count as Null.
\<close>

definition isNull :: "literal \<Rightarrow> bool" where
  "isNull v = (v = Null \<or> v = Undefined)"

section \<open>The renderer Lit\<close>

text \<open>
  Inside JSX, \<^verbatim>\<open>${e}\<close> is the text \<^verbatim>\<open>$\<close> followed by the expression child \<^verbatim>\<open>{e}\<close>
  (JSX has no template literals), \<^verbatim>\<open>&lt;\<close> and \<^verbatim>\<open>&gt;\<close> are the characters \<^verbatim>\<open><\<close> and
  \<^verbatim>\<open>>\<close>, and text that is only white space with a line break is dropped.  A child
  \<^verbatim>\<open><Lit .../>\<close> is rendered by calling \<open>Lit\<close> again.  The tests are tried in the order of
  the source; the last case of the model is never reached, since \<open>isNull\<close> has taken
  \<open>Null\<close> and \<open>Undefined\<close> before.
\<close>

function Lit :: "DataviewContexts \<Rightarrow> literal \<Rightarrow> string \<Rightarrow> bool \<Rightarrow> int \<Rightarrow> vnode" where
  "Lit ctx val sourcePath inline depth =
    (if depth \<ge> maxRecursiveRenderDepth (settings ctx) then Fragment [Text ''...'']
     else if isNull val then Markdown (renderNullAs (settings ctx)) sourcePath False
     else case val of
       String s \<Rightarrow> Markdown s sourcePath False
     | Number i \<Rightarrow> Fragment [Text ''$'', Text (number_string (large_number ctx) i)]
     | Boolean b \<Rightarrow> Fragment [Text ''$'', Text (boolean_string b)]
     | Date d \<Rightarrow>
         Fragment [Text ''$'', Text (renderMinimalDate ctx d (settings ctx) (currentLocale ctx))]
     | Duration d \<Rightarrow> Fragment [Text ''$'', Text (renderMinimalDuration ctx d)]
     | Link l \<Rightarrow> Markdown (markdown ctx l) sourcePath False
     | Html e \<Rightarrow> EmbedHtml e
     | Function \<Rightarrow> Fragment [Text ''<function>'']
     | Array xs \<Rightarrow>
         (if inline then
            Element ''ul'' ''dataview dataview-ul dataview-result-list-ul''
              (map (\<lambda>subvalue. Element ''li'' ''dataview-result-list-li''
                      [Lit ctx subvalue sourcePath inline (depth + 1)]) xs)
          else if length xs = 0 then Fragment [Text ''<Empty List>'']
          else
            Element ''span'' ''dataview dataview-result-list-span''
              (map (\<lambda>(subvalue, index).
                      Fragment [Text ''$'', Text (if index = 0 then '''' else '', ''),
                                Lit ctx subvalue sourcePath inline (depth + 1)])
                   (zip xs [0 ..< length xs])))
     | Object cname es \<Rightarrow>
         (if cname \<noteq> None \<and> the cname \<noteq> '''' \<and> the cname \<noteq> ''Object'' then
            Fragment [Text ''<$'', Text (the cname), Text ''>'']
          else if inline then
            Element ''ul'' ''dataview dataview-ul dataview-result-object-ul''
              (map (\<lambda>entry. Element ''li'' ''dataview dataview-li dataview-result-object-li''
                      [Text ''$'', child (large_number ctx) (get_property entry ''key''), Text '':'', Text '' '',
                       Lit ctx (get_property entry ''value'') sourcePath inline (depth + 1)])
                   (Object_entries es))
          else if length (Object_keys es) = 0 then Fragment [Text ''<Empty Object>'']
          else
            Element ''span'' ''dataview dataview-result-object-span''
              (map (\<lambda>(entry, index).
                      Fragment [Text ''$'', Text (if index = 0 then '''' else '', ''),
                                Text ''$'', child (large_number ctx) (get_property entry ''key''), Text '':'',
                                Text '' '',
                                Lit ctx (get_property entry ''value'') sourcePath inline
                                  (depth + 1)])
                   (zip (Object_entries es) [0 ..< length (Object_entries es)])))
     | Unrecognized json \<Rightarrow>
         Fragment [Text ''<Unrecognized: $'',
                   (case json of None \<Rightarrow> Skip | Some s \<Rightarrow> Text s), Text ''>'']
     | _ \<Rightarrow> Skip)"
  by pat_completeness auto

lemma get_property_value: "get_property entry ''value'' = Undefined"
  by (simp add: get_property_def)

lemma size_member: "x \<in> set xs \<Longrightarrow> size x < Suc (size_list size xs)"
  by (induction xs) auto

termination Lit
  apply (relation "measure (\<lambda>(ctx, val, sourcePath, inline, depth). size val)")
      apply (auto simp: get_property_value size_member dest!: set_zip_leftD)
  done

declare Lit.simps [simp del]

text \<open>
  A context for concrete renderings: at most four levels, Null shown as an en dash (its
  three bytes in UTF-8), refresh enabled.
\<close>

definition example_context :: DataviewContexts where
  "example_context =
     \<lparr>settings = \<lparr>maxRecursiveRenderDepth = 4,
                  renderNullAs = [CHR 0xE2, CHR 0x80, CHR 0x93],
                  refreshEnabled = True\<rparr>,
      currentLocale = ''en'',
      renderMinimalDate = (\<lambda>d s l. ''date''),
      renderMinimalDuration = (\<lambda>d. ''duration''),
      markdown = (\<lambda>l. ''[[link]]''),
      large_number = (\<lambda>i. ''1e+21'')\<rparr>"

text \<open>The same context with Null shown as \<^verbatim>\<open>N/A\<close>.\<close>

definition na_context :: DataviewContexts where
  "na_context = example_context\<lparr>settings := (settings example_context)\<lparr>renderNullAs := ''N/A''\<rparr>\<rparr>"

section \<open>The Markdown component: unwrapping paragraphs\<close>

text \<open>
  The real DOM below the component's \<^verbatim>\<open>span\<close>: text nodes and elements with their tag
  and child nodes.  A node inside a list of siblings is addressed by the path of child
  indices that leads to it.
\<close>

datatype dom = TextNode string | HTMLElement string "dom list"

type_synonym path = "nat list"

fun childNodes :: "dom \<Rightarrow> dom list" where
  "childNodes (TextNode s) = []"
| "childNodes (HTMLElement tag cs) = cs"

fun next_sibling :: "path \<Rightarrow> path" where
  "next_sibling [] = []"
| "next_sibling (i # p) = Suc i # p"

text \<open>
  \<^verbatim>\<open>container.querySelector(sel)\<close> for a tag selector, on the children of the container:
  the first element in document order (an element before its descendants, these before
  its later siblings) whose tag is \<open>sel\<close>, at any depth, or \<^verbatim>\<open>null\<close>.
\<close>

fun querySelector :: "string \<Rightarrow> dom list \<Rightarrow> path option" where
  "querySelector sel [] = None"
| "querySelector sel (TextNode s # rest) = map_option next_sibling (querySelector sel rest)"
| "querySelector sel (HTMLElement tag cs # rest) =
     (if tag = sel then Some [0]
      else case querySelector sel cs of
             Some p \<Rightarrow> Some (0 # p)
           | None \<Rightarrow> map_option next_sibling (querySelector sel rest))"

text \<open>
  \<^verbatim>\<open>paragraph.replaceWith(...Array.from(paragraph.childNodes))\<close> for the node at a path:
  its child nodes take its place among its siblings.
\<close>

fun replaceWith_childNodes :: "path \<Rightarrow> dom list \<Rightarrow> dom list" where
  "replaceWith_childNodes [0] (n # rest) = childNodes n @ rest"
| "replaceWith_childNodes (0 # p) (HTMLElement tag cs # rest) =
     HTMLElement tag (replaceWith_childNodes p cs) # rest"
| "replaceWith_childNodes (Suc i # p) (n # rest) = n # replaceWith_childNodes (i # p) rest"
| "replaceWith_childNodes p ns = ns"

text \<open>The number of \<^verbatim>\<open>p\<close> elements below the container, at any depth.\<close>

fun paragraphs :: "dom list \<Rightarrow> nat" where
  "paragraphs [] = 0"
| "paragraphs (TextNode s # rest) = paragraphs rest"
| "paragraphs (HTMLElement tag cs # rest) =
     (if tag = ''p'' then 1 else 0) + paragraphs cs + paragraphs rest"

lemma paragraphs_append: "paragraphs (xs @ ys) = paragraphs xs + paragraphs ys"
  by (induction xs rule: paragraphs.induct) auto

lemma next_sibling_Nil: "next_sibling p = [] \<longleftrightarrow> p = []"
  by (cases p) auto

lemma querySelector_not_Nil: "querySelector sel ns \<noteq> Some []"
  by (induction sel ns rule: querySelector.induct)
     (auto split: option.splits simp: next_sibling_Nil)

lemma next_sibling_Cons: "p \<noteq> [] \<Longrightarrow> \<exists>i q. p = i # q \<and> next_sibling p = Suc i # q"
  by (cases p) auto

lemma replaceWith_next_sibling:
  "p \<noteq> [] \<Longrightarrow> replaceWith_childNodes (next_sibling p) (n # rest) = n # replaceWith_childNodes p rest"
  by (cases p) auto

lemma replaceWith_child:
  "p \<noteq> [] \<Longrightarrow> replaceWith_childNodes (0 # p) (HTMLElement tag cs # rest) =
     HTMLElement tag (replaceWith_childNodes p cs) # rest"
  by (cases p) auto

lemma paragraphs_replaceWith:
  "querySelector ''p'' ns = Some p \<Longrightarrow> Suc (paragraphs (replaceWith_childNodes p ns)) = paragraphs ns"
proof (induction "''p''" ns arbitrary: p rule: querySelector.induct)
  case 1
  then show ?case by simp
next
  case (2 s rest)
  then obtain q where q: "querySelector ''p'' rest = Some q" "p = next_sibling q"
    by auto
  have "q \<noteq> []" using q(1) querySelector_not_Nil by metis
  then show ?case using 2 q by (simp add: replaceWith_next_sibling)
next
  case (3 tag cs rest)
  show ?case
  proof (cases "tag = ''p''")
    case True
    then show ?thesis using 3 by (auto simp: paragraphs_append)
  next
    case False
    show ?thesis
    proof (cases "querySelector ''p'' cs")
      case (Some q)
      have "q \<noteq> []" using Some querySelector_not_Nil by metis
      then show ?thesis using 3 False Some by (auto simp: replaceWith_child)
    next
      case None
      then obtain q where q: "querySelector ''p'' rest = Some q" "p = next_sibling q"
        using 3 False by auto
      have "q \<noteq> []" using q(1) querySelector_not_Nil by metis
      then show ?thesis using 3 False None q by (simp add: replaceWith_next_sibling)
    qed
  qed
qed

lemma querySelector_None_iff: "querySelector ''p'' ns = None \<longleftrightarrow> paragraphs ns = 0"
  by (induction "''p''" ns rule: querySelector.induct) (auto split: option.splits)

text \<open>
  The loop of the \<^verbatim>\<open>then\<close> callback:
  \<^verbatim>\<open>let paragraph = querySelector("p"); while (paragraph) { replaceWith; querySelector }\<close>.
\<close>

function unwrap :: "dom list \<Rightarrow> dom list" where
  "unwrap ns =
     (case querySelector ''p'' ns of
        None \<Rightarrow> ns
      | Some paragraph \<Rightarrow> unwrap (replaceWith_childNodes paragraph ns))"
  by pat_completeness auto

termination unwrap
proof (relation "measure paragraphs")
  show "wf (measure paragraphs)" by simp
next
  fix ns q
  assume "querySelector ''p'' ns = Some q"
  then have "Suc (paragraphs (replaceWith_childNodes q ns)) = paragraphs ns"
    by (rule paragraphs_replaceWith)
  then show "(replaceWith_childNodes q ns, ns) \<in> measure paragraphs"
    by simp
qed

declare unwrap.simps [simp del]

text \<open>
  The callback passed to \<^verbatim>\<open>then\<close>, run when \<^verbatim>\<open>MarkdownRenderer.renderMarkdown\<close> has
  resolved.  \<open>current\<close> is \<^verbatim>\<open>container.current\<close>: \<open>None\<close> when the ref is not set, else the
  children of the \<^verbatim>\<open>span\<close>, as the host's renderer left them.  The result is
  \<^verbatim>\<open>container.current\<close> afterwards.
\<close>

definition Markdown_then :: "dom list option \<Rightarrow> bool \<Rightarrow> dom list option" where
  "Markdown_then current inline =
     (case current of
        None \<Rightarrow> None
      | Some ns \<Rightarrow> if \<not> inline then Some ns else Some (unwrap ns))"

text \<open>
  What the loop is meant to compute, by recursion on the tree: every \<^verbatim>\<open>p\<close> element
  gives way to its children, themselves unwrapped, and everything else stays.
\<close>

fun without_paragraphs :: "dom list \<Rightarrow> dom list" where
  "without_paragraphs [] = []"
| "without_paragraphs (TextNode s # rest) = TextNode s # without_paragraphs rest"
| "without_paragraphs (HTMLElement tag cs # rest) =
     (if tag = ''p'' then without_paragraphs cs @ without_paragraphs rest
      else HTMLElement tag (without_paragraphs cs) # without_paragraphs rest)"

section \<open>The hook useIndexBackedState\<close>

text \<open>
  One instance of the hook, with the collaborators it reads.  The hook keeps three
  \<^verbatim>\<open>useState\<close> slots (\<open>initialized\<close>, \<open>state\<close>, \<open>lastReload\<close>) and one \<^verbatim>\<open>useEffect\<close>
  slot with the dependency \<^verbatim>\<open>[container]\<close>.  The index (\<open>revision\<close>), the containers
  (\<open>isShown\<close>) and the settings live outside the view and are read when a handler runs.

  The function \<^verbatim>\<open>refreshOperation\<close> is created inside the effect, so it closes over the
  variables of the render that ran the effect: \<^verbatim>\<open>lastReload\<close> and \<^verbatim>\<open>container\<close>.  A later
  \<^verbatim>\<open>setLastReload\<close> changes the slot, not the variable the registered handler holds.
\<close>

type_synonym container = nat
type_synonym token = nat

record closure =
  cl_lastReload :: int
  cl_container :: container

datatype phase = Unrendered | Mounted | Unmounted

record 'a view =
  revision :: int
  isShown :: "container \<Rightarrow> bool"
  view_settings :: settings
  phase :: phase
  initialized :: bool
  state :: 'a
  lastReload :: int
  effect :: "(container \<times> token \<times> token) option"
  workspace_refs :: "(token \<times> closure) list"
  node_refs :: "(token \<times> closure) list"
  next_token :: token
  released :: "token list"
  pending :: nat
  computes :: nat

text \<open>
  \<open>effect\<close> is the live effect: the container it depends on and the two registrations its
  cleanup releases.  \<open>workspace_refs\<close> are the handlers registered with
  \<^verbatim>\<open>app.workspace.on("dataview:refresh-views", ...)\<close>, \<open>node_refs\<close> those registered with
  \<^verbatim>\<open>container.onNodeInserted\<close>; \<open>released\<close> lists the registrations released so far, in
  order.  \<open>pending\<close> counts the promises of \<^verbatim>\<open>compute()\<close> that have not resolved yet and
  \<open>computes\<close> the calls of \<^verbatim>\<open>compute()\<close>.

  A setter of \<^verbatim>\<open>useState\<close> writes its slot whenever it is called, also after the
  unmount: the hook calls its setters without any test of its own.
\<close>

definition updateState :: "'a \<Rightarrow> 'a view \<Rightarrow> 'a view" where
  "updateState v w = w\<lparr>state := v\<rparr>"

definition setLastReload :: "int \<Rightarrow> 'a view \<Rightarrow> 'a view" where
  "setLastReload r w = w\<lparr>lastReload := r\<rparr>"

definition setInitialized :: "bool \<Rightarrow> 'a view \<Rightarrow> 'a view" where
  "setInitialized b w = w\<lparr>initialized := b\<rparr>"

text \<open>\<^verbatim>\<open>compute().then(v => updateState(v))\<close>: one more call, one more promise in flight.\<close>

definition compute_then :: "'a view \<Rightarrow> 'a view" where
  "compute_then w = w\<lparr>computes := computes w + 1, pending := pending w + 1\<rparr>"

definition refreshOperation :: "closure \<Rightarrow> 'a view \<Rightarrow> 'a view" where
  "refreshOperation cl w =
     (if cl_lastReload cl \<noteq> revision w \<and> isShown w (cl_container cl)
         \<and> refreshEnabled (view_settings w)
      then compute_then (setLastReload (revision w) w)
      else w)"

text \<open>The body of the effect: both registrations of a fresh \<^verbatim>\<open>refreshOperation\<close>.\<close>

definition run_effect :: "container \<Rightarrow> 'a view \<Rightarrow> 'a view" where
  "run_effect c w =
     (let cl = \<lparr>cl_lastReload = lastReload w, cl_container = c\<rparr>;
          workEvent = next_token w;
          nodeEvent = next_token w + 1
      in w\<lparr>workspace_refs := workspace_refs w @ [(workEvent, cl)],
           node_refs := node_refs w @ [(nodeEvent, cl)],
           next_token := next_token w + 2,
           effect := Some (c, workEvent, nodeEvent)\<rparr>)"

text \<open>The function the effect returns: \<^verbatim>\<open>app.workspace.offref(workEvent); nodeEvent()\<close>.\<close>

definition cleanup :: "'a view \<Rightarrow> 'a view" where
  "cleanup w =
     (case effect w of
        None \<Rightarrow> w
      | Some (c, workEvent, nodeEvent) \<Rightarrow>
          w\<lparr>workspace_refs := filter (\<lambda>(t, cl). t \<noteq> workEvent) (workspace_refs w),
            node_refs := filter (\<lambda>(t, cl). t \<noteq> nodeEvent) (node_refs w),
            released := released w @ [workEvent, nodeEvent],
            effect := None\<rparr>)"

text \<open>
  One render of the component that calls the hook, with the effect run right after it.
  The first render creates the slots; the effect runs on the first render and whenever
  \<open>container\<close> differs from the one of the live effect, after that effect's cleanup.  The
  result is the value the hook returns and the view afterwards.
\<close>

definition useIndexBackedState :: "container \<Rightarrow> 'a \<Rightarrow> 'a view \<Rightarrow> 'a \<times> 'a view" where
  "useIndexBackedState container initial w =
     (let w1 = (if phase w = Unrendered
                then w\<lparr>phase := Mounted, initialized := False, state := initial,
                       lastReload := revision w\<rparr>
                else w);
          w2 = (if \<not> initialized w1 then setInitialized True (compute_then w1) else w1);
          w3 = (case effect w2 of
                  None \<Rightarrow> run_effect container w2
                | Some (c, workEvent, nodeEvent) \<Rightarrow>
                    if c \<noteq> container then run_effect container (cleanup w2) else w2)
      in (state w3, w3))"

text \<open>
  What can happen to a view.  \<open>Render\<close> is a render of the component with the props the
  parent passes; \<open>Unmount\<close> is \<^verbatim>\<open>ReactRenderer.onunload\<close>, whose
  \<^verbatim>\<open>unmountComponentAtNode\<close> runs the cleanup of the live effect; \<open>RefreshViews\<close> is the
  workspace event, \<open>NodeInserted\<close> the container becoming visible, \<open>Resolve\<close> a promise of
  \<^verbatim>\<open>compute()\<close> resolving with a value, \<open>Touch\<close> the index advancing its revision.  A
  view follows one instance of the component: a render after the unmount would create
  another instance, with slots of its own.
\<close>

datatype 'a event =
    Render container 'a
  | Unmount
  | RefreshViews
  | NodeInserted container
  | Resolve 'a
  | Touch
  | SetShown container bool
  | SetRefreshEnabled bool

definition dispatch :: "(token \<times> closure) list \<Rightarrow> 'a view \<Rightarrow> 'a view" where
  "dispatch handlers w = foldl (\<lambda>w' (t, cl). refreshOperation cl w') w handlers"

fun step :: "'a view \<Rightarrow> 'a event \<Rightarrow> 'a view" where
  "step w (Render container initial) =
     (if phase w = Unmounted then w else snd (useIndexBackedState container initial w))"
| "step w Unmount = (if phase w = Mounted then (cleanup w)\<lparr>phase := Unmounted\<rparr> else w)"
| "step w RefreshViews = dispatch (workspace_refs w) w"
| "step w (NodeInserted c) =
     dispatch (filter (\<lambda>(t, cl). cl_container cl = c) (node_refs w)) w"
| "step w (Resolve v) =
     (if pending w = 0 then w else updateState v (w\<lparr>pending := pending w - 1\<rparr>))"
| "step w Touch = w\<lparr>revision := revision w + 1\<rparr>"
| "step w (SetShown c b) = w\<lparr>isShown := (isShown w)(c := b)\<rparr>"
| "step w (SetRefreshEnabled b) =
     w\<lparr>view_settings := (view_settings w)\<lparr>refreshEnabled := b\<rparr>\<rparr>"

definition run :: "'a view \<Rightarrow> 'a event list \<Rightarrow> 'a view" where
  "run w evs = foldl step w evs"

text \<open>A view before its first render.\<close>

definition fresh :: "int \<Rightarrow> (container \<Rightarrow> bool) \<Rightarrow> settings \<Rightarrow> 'a \<Rightarrow> 'a view" where
  "fresh r shown s v =
     \<lparr>revision = r, isShown = shown, view_settings = s, phase = Unrendered,
      initialized = False, state = v, lastReload = r, effect = None,
      workspace_refs = [], node_refs = [], next_token = 0, released = [],
      pending = 0, computes = 0\<rparr>"

text \<open>
  A view for concrete runs: revision 0, every container shown, the settings of
  \<open>example_context\<close> (refresh enabled), and natural numbers as computed values.
\<close>

definition example_view :: "nat view" where
  "example_view = fresh 0 (\<lambda>c. True) (settings example_context) 0"

text \<open>
  The registrations of the live effect, and what holds of every view that a run can
  reach: \<open>lastReload\<close> never exceeds the revision, registrations are numbered in order and
  those released so far followed by the live ones are all that were made, and the
  handlers registered are exactly the two of the live effect, which hold one closure
  whose \<open>lastReload\<close> is at most the slot's.  A view with a live effect is mounted and
  has made its first load.
\<close>

definition live_tokens :: "'a view \<Rightarrow> token list" where
  "live_tokens w =
     (case effect w of None \<Rightarrow> [] | Some (c, workEvent, nodeEvent) \<Rightarrow> [workEvent, nodeEvent])"

definition consistent :: "'a view \<Rightarrow> bool" where
  "consistent w =
     (lastReload w \<le> revision w \<and>
      released w @ live_tokens w = [0 ..< next_token w] \<and>
      (case effect w of
         None \<Rightarrow> phase w \<noteq> Mounted \<and> workspace_refs w = [] \<and> node_refs w = []
       | Some (c, workEvent, nodeEvent) \<Rightarrow>
           phase w = Mounted \<and> initialized w \<and>
           (\<exists>l. l \<le> lastReload w \<and>
              workspace_refs w = [(workEvent, \<lparr>cl_lastReload = l, cl_container = c\<rparr>)] \<and>
              node_refs w = [(nodeEvent, \<lparr>cl_lastReload = l, cl_container = c\<rparr>)])))"

section \<open>Properties of the renderer\<close>

text \<open>
  C1: at every depth that has reached \<open>maxRecursiveRenderDepth\<close>, \<open>Lit\<close> returns the
  truncation placeholder, whatever the value, the source path and the mode are: the
  result has no child rendering and does not depend on the variant.
\<close>

theorem Lit_beyond_depth:
  "maxRecursiveRenderDepth (settings ctx) \<le> depth \<Longrightarrow>
     Lit ctx val sourcePath inline depth = Fragment [Text ''...'']"
  by (simp add: Lit.simps)

theorem Lit_beyond_depth_witness:
  "maxRecursiveRenderDepth (settings example_context) \<le> 4 \<and>
   Lit example_context (Array [Number 1, Object None [(''a'', Null)]]) ''note.md'' True 4
     = Fragment [Text ''...'']"
  using Lit_beyond_depth
    [of example_context 4 "Array [Number 1, Object None [(''a'', Null)]]" "''note.md''" True]
  by (simp add: example_context_def)

text \<open>
  C8: when \<open>renderNullAs\<close> is \<^verbatim>\<open>N/A\<close>, rendering Null gives the same tree as rendering
  the string \<^verbatim>\<open>N/A\<close>, for every source path, mode and depth.
\<close>

theorem Lit_Null_as_String:
  "renderNullAs (settings ctx) = ''N/A'' \<Longrightarrow>
     Lit ctx Null sourcePath inline depth = Lit ctx (String ''N/A'') sourcePath inline depth"
  by (simp add: Lit.simps isNull_def)

theorem Lit_Null_as_String_witness:
  "renderNullAs (settings na_context) = ''N/A'' \<and>
   Lit na_context Null ''note.md'' False 0 = Markdown ''N/A'' ''note.md'' False \<and>
   Lit na_context (String ''N/A'') ''note.md'' False 0 = Markdown ''N/A'' ''note.md'' False"
  using Lit_Null_as_String [of na_context "''note.md''" False 0]
  by (simp add: Lit.simps [of _ "String _"] na_context_def example_context_def isNull_def)

lemma Lit_inline_not_Empty_List:
  "Lit ctx val sourcePath True depth \<noteq> Fragment [Text ''<Empty List>'']"
  by (cases val) (auto simp: Lit.simps isNull_def split: option.splits)

text \<open>
  C10: below the maximal depth, an empty list in inline mode is the list element with no
  item; the placeholder for the empty list is what the non-inline mode returns, and no
  value at all is rendered as that placeholder in inline mode.
\<close>

theorem Lit_empty_list:
  "depth < maxRecursiveRenderDepth (settings ctx) \<Longrightarrow>
     Lit ctx (Array []) sourcePath True depth
       = Element ''ul'' ''dataview dataview-ul dataview-result-list-ul'' [] \<and>
     Lit ctx (Array []) sourcePath False depth = Fragment [Text ''<Empty List>''] \<and>
     (\<forall>val. Lit ctx val sourcePath True depth \<noteq> Fragment [Text ''<Empty List>''])"
proof (intro conjI allI)
  assume d: "depth < maxRecursiveRenderDepth (settings ctx)"
  show "Lit ctx (Array []) sourcePath True depth
       = Element ''ul'' ''dataview dataview-ul dataview-result-list-ul'' []"
    using d by (simp add: Lit.simps [of ctx "Array []"] isNull_def)
  show "Lit ctx (Array []) sourcePath False depth = Fragment [Text ''<Empty List>'']"
    using d by (simp add: Lit.simps [of ctx "Array []"] isNull_def)
  show "Lit ctx val sourcePath True depth \<noteq> Fragment [Text ''<Empty List>'']" for val
    by (rule Lit_inline_not_Empty_List)
qed

theorem Lit_empty_list_witness:
  "(0::int) < maxRecursiveRenderDepth (settings example_context) \<and>
   Lit example_context (Array []) ''note.md'' True 0
     = Element ''ul'' ''dataview dataview-ul dataview-result-list-ul'' [] \<and>
   Lit example_context (Array []) ''note.md'' False 0 = Fragment [Text ''<Empty List>''] \<and>
   Lit example_context (Object None []) ''note.md'' True 0
     \<noteq> Fragment [Text ''<Empty List>'']"
  using Lit_empty_list [of 0 example_context "''note.md''"]
  by (simp add: example_context_def)

text \<open>
  C5: a plain record with the one entry \<^verbatim>\<open>a: 1\<close>, in both modes.  An entry of
  \<^verbatim>\<open>Object.entries\<close> is the array \<^verbatim>\<open>[key, value]\<close>, so \<^verbatim>\<open>entry.key\<close> and
  \<^verbatim>\<open>entry.value\<close> are \<^verbatim>\<open>undefined\<close>: the item shows \<^verbatim>\<open>$\<close>, no key, the colon and a
  space, and then the rendering of \<^verbatim>\<open>undefined\<close> in place of the rendering of 1.
\<close>

theorem Lit_record_entry:
  "Lit example_context (Object (Some ''Object'') [(''a'', Number 1)]) ''note.md'' True 0
     = Element ''ul'' ''dataview dataview-ul dataview-result-object-ul''
         [Element ''li'' ''dataview dataview-li dataview-result-object-li''
            [Text ''$'', Skip, Text '':'', Text '' '',
             Lit example_context Undefined ''note.md'' True 1]] \<and>
   Lit example_context (Object (Some ''Object'') [(''a'', Number 1)]) ''note.md'' False 0
     = Element ''span'' ''dataview dataview-result-object-span''
         [Fragment
            [Text ''$'', Text '''', Text ''$'', Skip, Text '':'', Text '' '',
             Lit example_context Undefined ''note.md'' False 1]]"
  by (simp add: Lit.simps [of _ "Object _ _"] example_context_def isNull_def Object_entries_def
        Object_keys_def get_property_def)

text \<open>
  C6: the list \<^verbatim>\<open>[1, "a", null]\<close> in non-inline mode.  Each of the three items starts
  with the text \<^verbatim>\<open>$\<close>, followed by the separator (empty for the first item) and the
  rendering of the element, and the number is itself rendered as \<^verbatim>\<open>$\<close> and \<^verbatim>\<open>1\<close>.
\<close>

theorem Lit_list_scenario:
  "Lit example_context (Array [Number 1, String ''a'', Null]) ''note.md'' False 0
     = Element ''span'' ''dataview dataview-result-list-span''
         [Fragment [Text ''$'', Text '''', Fragment [Text ''$'', Text ''1'']],
          Fragment [Text ''$'', Text '', '', Markdown ''a'' ''note.md'' False],
          Fragment [Text ''$'', Text '', '',
                    Markdown [CHR 0xE2, CHR 0x80, CHR 0x93] ''note.md'' False]]"
  by (simp add: Lit.simps example_context_def isNull_def number_string_def decimal.simps
        digit_def upt_rec)

text \<open>
  C7: an instance of a class \<^verbatim>\<open>Foo\<close> that holds a plain record.  The entries are not
  rendered; the placeholder is made of the three texts \<^verbatim>\<open><$\<close>, \<^verbatim>\<open>Foo\<close> and \<^verbatim>\<open>>\<close>.
\<close>

theorem Lit_class_instance:
  "Lit example_context (Object (Some ''Foo'') [(''inner'', Object (Some ''Object'') [(''a'', Number 1)])])
       ''note.md'' False 0
     = Fragment [Text ''<$'', Text ''Foo'', Text ''>'']"
  by (simp add: Lit.simps example_context_def isNull_def)

lemma map_zip_upt:
  "map (\<lambda>(x, i). f x i) (zip xs [0 ..< length xs]) = map (\<lambda>i. f (xs ! i) i) [0 ..< length xs]"
  by (rule nth_equalityI) simp_all

text \<open>
  The shape of a list in non-inline mode, in general: below the maximal depth, a
  non-empty list of \<open>n\<close> elements is a \<^verbatim>\<open>span\<close> of \<open>n\<close> items, in the order of the
  list.  Item \<open>i\<close> is the text \<^verbatim>\<open>$\<close>, the separator (empty for the first item, a comma
  and a space for the others) and the rendering of element \<open>i\<close> one level deeper.
\<close>

theorem Lit_list_items:
  "depth < maxRecursiveRenderDepth (settings ctx) \<Longrightarrow> xs \<noteq> [] \<Longrightarrow>
     Lit ctx (Array xs) sourcePath False depth =
       Element ''span'' ''dataview dataview-result-list-span''
         (map (\<lambda>i. Fragment [Text ''$'', Text (if i = 0 then '''' else '', ''),
                               Lit ctx (xs ! i) sourcePath False (depth + 1)])
              [0 ..< length xs])"
  by (simp add: Lit.simps [of ctx "Array xs"] isNull_def map_zip_upt)

theorem Lit_list_items_witness:
  "(0::int) < maxRecursiveRenderDepth (settings example_context) \<and>
   [Number 1, Null] \<noteq> [] \<and>
   Lit example_context (Array [Number 1, Null]) ''note.md'' False 0 =
     Element ''span'' ''dataview dataview-result-list-span''
       [Fragment [Text ''$'', Text '''', Lit example_context (Number 1) ''note.md'' False 1],
        Fragment [Text ''$'', Text '', '', Lit example_context Null ''note.md'' False 1]]"
  using Lit_list_items [of 0 example_context "[Number 1, Null]" "''note.md''"]
  by (simp add: example_context_def upt_rec)

text \<open>
  The placeholder of a class instance, in general: below the maximal depth, an object
  whose constructor has a name other than \<^verbatim>\<open>Object\<close> is rendered from that name alone,
  in both modes: its entries are not looked at.
\<close>

theorem Lit_class_placeholder:
  "depth < maxRecursiveRenderDepth (settings ctx) \<Longrightarrow> name \<noteq> '''' \<Longrightarrow> name \<noteq> ''Object'' \<Longrightarrow>
     Lit ctx (Object (Some name) es) sourcePath inline depth
       = Fragment [Text ''<$'', Text name, Text ''>'']"
  by (simp add: Lit.simps [of ctx "Object _ _"] isNull_def)

theorem Lit_class_placeholder_witness:
  "(0::int) < maxRecursiveRenderDepth (settings example_context) \<and> ''Foo'' \<noteq> '''' \<and>
   ''Foo'' \<noteq> ''Object'' \<and>
   Lit example_context (Object (Some ''Foo'') [(''self'', Object (Some ''Foo'') [])]) ''note.md'' True 0
     = Fragment [Text ''<$'', Text ''Foo'', Text ''>'']"
  using Lit_class_placeholder [of 0 example_context "''Foo''" "[(''self'', Object (Some ''Foo'') [])]" "''note.md''" True]
  by (simp add: example_context_def)

text \<open>
  An instance of an anonymous class has the constructor name \<^verbatim>\<open>""\<close>, which fails the
  test \<^verbatim>\<open>value?.constructor?.name && ...\<close>: it is rendered as a plain record is, item
  by item.
\<close>

theorem Lit_anonymous_class:
  "Lit example_context (Object (Some '''') [(''a'', Number 1)]) ''note.md'' True 0
     = Element ''ul'' ''dataview dataview-ul dataview-result-object-ul''
         [Element ''li'' ''dataview dataview-li dataview-result-object-li''
            [Text ''$'', Skip, Text '':'', Text '' '',
             Lit example_context Undefined ''note.md'' True 1]]"
  by (simp add: Lit.simps [of _ "Object _ _"] example_context_def isNull_def Object_entries_def
        get_property_def)

section \<open>Properties of the paragraph unwrapping\<close>

lemma unwrap_no_paragraph: "querySelector ''p'' (unwrap ns) = None"
  by (induction ns rule: unwrap.induct) (subst unwrap.simps, simp split: option.splits)

lemma without_paragraphs_append:
  "without_paragraphs (xs @ ys) = without_paragraphs xs @ without_paragraphs ys"
  by (induction xs rule: without_paragraphs.induct) auto

lemma without_paragraphs_replaceWith:
  "querySelector ''p'' ns = Some p \<Longrightarrow> without_paragraphs (replaceWith_childNodes p ns) = without_paragraphs ns"
proof (induction "''p''" ns arbitrary: p rule: querySelector.induct)
  case 1
  then show ?case by simp
next
  case (2 s rest)
  then obtain q where q: "querySelector ''p'' rest = Some q" "p = next_sibling q"
    by auto
  have "q \<noteq> []" using q(1) querySelector_not_Nil by metis
  then show ?case using 2 q by (simp add: replaceWith_next_sibling)
next
  case (3 tag cs rest)
  show ?case
  proof (cases "tag = ''p''")
    case True
    then show ?thesis using 3 by (auto simp: without_paragraphs_append)
  next
    case False
    show ?thesis
    proof (cases "querySelector ''p'' cs")
      case (Some q)
      have "q \<noteq> []" using Some querySelector_not_Nil by metis
      then show ?thesis using 3 False Some by (auto simp: replaceWith_child)
    next
      case None
      then obtain q where q: "querySelector ''p'' rest = Some q" "p = next_sibling q"
        using 3 False by auto
      have "q \<noteq> []" using q(1) querySelector_not_Nil by metis
      then show ?thesis using 3 False None q by (simp add: replaceWith_next_sibling)
    qed
  qed
qed

lemma without_paragraphs_id: "paragraphs ns = 0 \<Longrightarrow> without_paragraphs ns = ns"
  by (induction ns rule: without_paragraphs.induct) (auto split: if_splits)

lemma unwrap_without_paragraphs: "unwrap ns = without_paragraphs ns"
proof (induction ns rule: unwrap.induct)
  case (1 ns)
  show ?case
  proof (cases "querySelector ''p'' ns")
    case None
    then have "paragraphs ns = 0" by (simp add: querySelector_None_iff)
    then have "without_paragraphs ns = ns" by (rule without_paragraphs_id)
    then show ?thesis using None by (subst unwrap.simps) simp
  next
    case (Some q)
    then show ?thesis using 1 [OF Some]
      by (subst unwrap.simps) (simp add: without_paragraphs_replaceWith)
  qed
qed

text \<open>
  C9: in inline mode, once the host's renderer has resolved and the ref is set, the
  callback leaves the result of the loop in the container.  The loop is a total
  function (it terminates, since each round removes one \<^verbatim>\<open>p\<close> element), after it
  \<^verbatim>\<open>querySelector("p")\<close> finds nothing and no \<^verbatim>\<open>p\<close> element is left at any depth, and
  the container holds what it held before with every \<^verbatim>\<open>p\<close> element replaced by its own
  children.
\<close>

theorem Markdown_inline_unwraps:
  "Markdown_then (Some ns) True = Some (unwrap ns) \<and>
   querySelector ''p'' (unwrap ns) = None \<and> paragraphs (unwrap ns) = 0 \<and>
   unwrap ns = without_paragraphs ns"
  using unwrap_no_paragraph [of ns]
  by (simp add: Markdown_then_def querySelector_None_iff unwrap_without_paragraphs)

section \<open>Properties of the hook\<close>

lemmas hook_defs = run_def example_view_def fresh_def useIndexBackedState_def Let_def
  run_effect_def cleanup_def compute_then_def setInitialized_def setLastReload_def updateState_def
  refreshOperation_def dispatch_def example_context_def

lemma consistent_fresh: "consistent (fresh r shown s v)"
  by (simp add: consistent_def fresh_def live_tokens_def)


lemma refreshOperation_frame:
  "phase (refreshOperation cl w) = phase w"
  "effect (refreshOperation cl w) = effect w"
  "workspace_refs (refreshOperation cl w) = workspace_refs w"
  "node_refs (refreshOperation cl w) = node_refs w"
  "next_token (refreshOperation cl w) = next_token w"
  "released (refreshOperation cl w) = released w"
  "revision (refreshOperation cl w) = revision w"
  "isShown (refreshOperation cl w) = isShown w"
  "view_settings (refreshOperation cl w) = view_settings w"
  "state (refreshOperation cl w) = state w"
  "initialized (refreshOperation cl w) = initialized w"
  by (simp_all add: refreshOperation_def compute_then_def setLastReload_def)

lemma refreshOperation_lastReload:
  "lastReload (refreshOperation cl w) = lastReload w \<or>
   lastReload (refreshOperation cl w) = revision w"
  by (simp add: refreshOperation_def compute_then_def setLastReload_def)

lemma consistent_refreshOperation:
  assumes "consistent w"
  shows "consistent (refreshOperation cl w)"
proof -
  have l: "lastReload w \<le> lastReload (refreshOperation cl w)"
    "lastReload (refreshOperation cl w) \<le> revision w"
    using assms refreshOperation_lastReload [of cl w] by (auto simp: consistent_def)
  show ?thesis
  proof (cases "effect w")
    case None
    then show ?thesis using assms l
      by (simp add: consistent_def live_tokens_def refreshOperation_frame)
  next
    case (Some e)
    obtain c workEvent nodeEvent where e: "e = (c, workEvent, nodeEvent)" by (cases e)
    show ?thesis using assms l Some e
      by (auto simp: consistent_def live_tokens_def refreshOperation_frame)
  qed
qed

lemma consistent_dispatch: "consistent w \<Longrightarrow> consistent (dispatch hs w)"
  unfolding dispatch_def
  by (induction hs arbitrary: w) (auto simp: consistent_refreshOperation split: prod.splits)

lemma consistent_cleanup:
  assumes "consistent w"
  shows "consistent ((cleanup w)\<lparr>phase := Unmounted\<rparr>)"
proof (cases "effect w")
  case None
  then show ?thesis using assms by (simp add: consistent_def live_tokens_def cleanup_def)
next
  case (Some e)
  obtain c workEvent nodeEvent where e: "e = (c, workEvent, nodeEvent)" by (cases e)
  show ?thesis using assms Some e
    by (auto simp: consistent_def live_tokens_def cleanup_def)
qed

lemma consistent_useIndexBackedState:
  assumes "consistent w" and "phase w \<noteq> Unmounted"
  shows "consistent (snd (useIndexBackedState c i w))"
proof (cases "effect w")
  case None
  then have u: "phase w = Unrendered" using assms by (cases "phase w") (auto simp: consistent_def)
  show ?thesis using assms None u
    by (simp add: consistent_def live_tokens_def useIndexBackedState_def Let_def
          run_effect_def compute_then_def setInitialized_def)
next
  case (Some e)
  obtain c' workEvent nodeEvent where e: "e = (c', workEvent, nodeEvent)" by (cases e)
  have m: "phase w = Mounted" using assms Some e by (simp add: consistent_def)
  show ?thesis
  proof (cases "c' = c")
    case True
    then show ?thesis using assms Some e m
      by (auto simp: consistent_def live_tokens_def useIndexBackedState_def Let_def
            compute_then_def setInitialized_def)
  next
    case False
    then show ?thesis using assms Some e m
      by (auto simp: consistent_def live_tokens_def useIndexBackedState_def Let_def
            run_effect_def cleanup_def compute_then_def setInitialized_def)
  qed
qed

lemma consistent_step: "consistent w \<Longrightarrow> consistent (step w e)"
proof (cases e)
  case (Render c i)
  assume "consistent w"
  then show ?thesis unfolding Render by (simp add: consistent_useIndexBackedState)
next
  case Unmount
  assume "consistent w"
  then show ?thesis unfolding Unmount by (simp add: consistent_cleanup)
next
  case RefreshViews
  assume "consistent w"
  then show ?thesis unfolding RefreshViews by (simp add: consistent_dispatch)
next
  case (NodeInserted c)
  assume "consistent w"
  then show ?thesis unfolding NodeInserted by (simp add: consistent_dispatch)
next
  case (Resolve x)
  assume "consistent w"
  then show ?thesis unfolding Resolve
    by (auto simp: consistent_def live_tokens_def updateState_def split: option.splits)
next
  case Touch
  assume "consistent w"
  then show ?thesis unfolding Touch
    by (auto simp: consistent_def live_tokens_def split: option.splits)
next
  case (SetShown c b)
  assume "consistent w"
  then show ?thesis unfolding SetShown
    by (auto simp: consistent_def live_tokens_def split: option.splits)
next
  case (SetRefreshEnabled b)
  assume "consistent w"
  then show ?thesis unfolding SetRefreshEnabled
    by (auto simp: consistent_def live_tokens_def split: option.splits)
qed

lemma consistent_run: "consistent w \<Longrightarrow> consistent (run w evs)"
  unfolding run_def by (induction evs arbitrary: w) (auto intro: consistent_step)

lemma consistent_reachable: "consistent (run (fresh r shown s v) evs)"
  by (simp add: consistent_run consistent_fresh)

text \<open>
  A setter of \<^verbatim>\<open>useState\<close> makes preact render the component again.  On a view that a
  run can reach, a render with the container of the live effect changes nothing and
  returns the state, which is why the setters are not followed by a render of their own.
\<close>

lemma rerender_same_container:
  assumes "w = run (fresh r shown s v) evs" and "effect w = Some (c, workEvent, nodeEvent)"
  shows "useIndexBackedState c i w = (state w, w)"
proof -
  have "consistent w" using assms(1) by (simp add: consistent_reachable)
  then have "phase w = Mounted" "initialized w" using assms(2) by (auto simp: consistent_def)
  then show ?thesis using assms(2) by (simp add: useIndexBackedState_def)
qed




text \<open>
  C2: a view mounted at revision 0, shown, with refresh enabled.  The index advances
  once; the first refresh notification triggers a recompute and sets \<open>lastReload\<close> to the
  revision.  The registered handler still compares with the \<open>lastReload\<close> of the first
  render, so the second and the third notification at the same revision trigger a
  recompute each: four calls of \<^verbatim>\<open>compute()\<close> with the first load.
\<close>

theorem refresh_twice_at_one_revision:
  "lastReload (run example_view [Render 7 0, Touch, RefreshViews])
     = revision (run example_view [Render 7 0, Touch, RefreshViews]) \<and>
   computes (run example_view [Render 7 0]) = 1 \<and>
   computes (run example_view [Render 7 0, Touch, RefreshViews]) = 2 \<and>
   computes (run example_view [Render 7 0, Touch, RefreshViews, RefreshViews]) = 3 \<and>
   computes (run example_view [Render 7 0, Touch, RefreshViews, RefreshViews, RefreshViews]) = 4"
  by (simp add: hook_defs)

lemma dispatch_disabled:
  "\<not> refreshEnabled (view_settings w) \<Longrightarrow> dispatch hs w = w"
  unfolding dispatch_def
  by (induction hs) (auto simp: refreshOperation_def)

text \<open>
  The gate on refreshing: while \<open>refreshEnabled\<close> is false, a refresh notification and
  a container becoming visible leave every view as it is: no recompute, no change of
  \<open>lastReload\<close>.
\<close>

theorem refresh_disabled:
  "\<not> refreshEnabled (view_settings w) \<Longrightarrow>
     step w RefreshViews = w \<and> step w (NodeInserted c) = w"
  by (simp add: dispatch_disabled)

theorem refresh_disabled_witness:
  "\<not> refreshEnabled (view_settings (run example_view [Render 7 0, SetRefreshEnabled False, Touch])) \<and>
   computes (run example_view [Render 7 0, SetRefreshEnabled False, Touch, RefreshViews]) = 1 \<and>
   computes (run example_view [Render 7 0, SetRefreshEnabled False, Touch, NodeInserted 7]) = 1"
  using refresh_disabled [of "run example_view [Render 7 0, SetRefreshEnabled False, Touch]" 7]
  by (simp add: hook_defs)

text \<open>
  The first notification after an advance: on a mounted view reached by any run, when
  the revision has advanced beyond \<open>lastReload\<close>, the container is shown and refresh is
  enabled, a refresh notification triggers exactly one recompute and sets \<open>lastReload\<close>
  to the revision at once.
\<close>

theorem refresh_after_advance:
  assumes "w = run (fresh r shown s v) evs" and "effect w = Some (c, workEvent, nodeEvent)"
    and "lastReload w < revision w" and "isShown w c" and "refreshEnabled (view_settings w)"
  shows "computes (step w RefreshViews) = computes w + 1 \<and>
         lastReload (step w RefreshViews) = revision w"
proof -
  have "consistent w" using assms(1) by (simp add: consistent_reachable)
  then obtain l where l: "l \<le> lastReload w" "phase w = Mounted"
      "workspace_refs w = [(workEvent, \<lparr>cl_lastReload = l, cl_container = c\<rparr>)]"
    using assms(2) by (auto simp: consistent_def)
  have s: "step w RefreshViews = refreshOperation \<lparr>cl_lastReload = l, cl_container = c\<rparr> w"
    using l by (simp add: dispatch_def)
  show ?thesis unfolding s using l assms(3-5)
    by (auto simp: refreshOperation_def compute_then_def setLastReload_def)
qed

theorem refresh_after_advance_witness:
  "effect (run example_view [Render 7 0, Touch]) = Some (7, 0, 1) \<and>
   lastReload (run example_view [Render 7 0, Touch]) < revision (run example_view [Render 7 0, Touch]) \<and>
   isShown (run example_view [Render 7 0, Touch]) 7 \<and>
   refreshEnabled (view_settings (run example_view [Render 7 0, Touch])) \<and>
   computes (step (run example_view [Render 7 0, Touch]) RefreshViews) = 2 \<and>
   lastReload (step (run example_view [Render 7 0, Touch]) RefreshViews) = 1"
  using refresh_after_advance [of "run example_view [Render 7 0, Touch]" 0 "\<lambda>c. True"
      "settings example_context" 0 "[Render 7 0, Touch]" 7 0 1]
  by (simp add: hook_defs)

text \<open>
  C3, as the code has it: a container that becomes visible runs the same guarded
  \<^verbatim>\<open>refreshOperation\<close> as a refresh notification.  On a mounted view reached by any run,
  it triggers exactly one recompute when the revision has advanced beyond \<open>lastReload\<close>,
  the container is shown and refresh is enabled; it triggers none when the container is
  not shown or refresh is disabled, and none when the revision is still the one the
  registered handler took from its render.
\<close>

theorem became_visible_guarded:
  assumes "w = run (fresh r shown s v) evs" and "effect w = Some (c, workEvent, nodeEvent)"
  shows "(lastReload w < revision w \<and> isShown w c \<and> refreshEnabled (view_settings w)
            \<longrightarrow> computes (step w (NodeInserted c)) = computes w + 1) \<and>
         (\<not> isShown w c \<or> \<not> refreshEnabled (view_settings w)
            \<longrightarrow> computes (step w (NodeInserted c)) = computes w) \<and>
         ((\<forall>h \<in> set (node_refs w). cl_lastReload (snd h) = revision w)
            \<longrightarrow> computes (step w (NodeInserted c)) = computes w)"
proof -
  have "consistent w" using assms(1) by (simp add: consistent_reachable)
  then obtain l where l: "l \<le> lastReload w" "phase w = Mounted"
      "node_refs w = [(nodeEvent, \<lparr>cl_lastReload = l, cl_container = c\<rparr>)]"
    using assms(2) by (auto simp: consistent_def)
  have s: "step w (NodeInserted c) = refreshOperation \<lparr>cl_lastReload = l, cl_container = c\<rparr> w"
    using l by (simp add: dispatch_def)
  show ?thesis unfolding s using l
    by (auto simp: refreshOperation_def compute_then_def setLastReload_def)
qed

theorem became_visible_guarded_witness:
  "effect (run example_view [Render 7 0, Touch]) = Some (7, 0, 1) \<and>
   lastReload (run example_view [Render 7 0, Touch]) < revision (run example_view [Render 7 0, Touch]) \<and>
   isShown (run example_view [Render 7 0, Touch]) 7 \<and>
   refreshEnabled (view_settings (run example_view [Render 7 0, Touch])) \<and>
   computes (step (run example_view [Render 7 0, Touch]) (NodeInserted 7))
     = computes (run example_view [Render 7 0, Touch]) + 1 \<and>
   \<not> refreshEnabled (view_settings (run example_view [Render 7 0, Touch, SetRefreshEnabled False])) \<and>
   computes (step (run example_view [Render 7 0, Touch, SetRefreshEnabled False]) (NodeInserted 7))
     = computes (run example_view [Render 7 0, Touch, SetRefreshEnabled False]) \<and>
   node_refs (run example_view [Render 7 0])
     = [(1, \<lparr>cl_lastReload = revision (run example_view [Render 7 0]), cl_container = 7\<rparr>)] \<and>
   computes (step (run example_view [Render 7 0]) (NodeInserted 7))
     = computes (run example_view [Render 7 0])"
  using became_visible_guarded [of "run example_view [Render 7 0, Touch]" 0 "\<lambda>c. True"
      "settings example_context" 0 "[Render 7 0, Touch]" 7 0 1]
    became_visible_guarded [of "run example_view [Render 7 0, Touch, SetRefreshEnabled False]" 0
      "\<lambda>c. True" "settings example_context" 0 "[Render 7 0, Touch, SetRefreshEnabled False]" 7 0 1]
    became_visible_guarded [of "run example_view [Render 7 0]" 0 "\<lambda>c. True"
      "settings example_context" 0 "[Render 7 0]" 7 0 1]
  by (simp add: hook_defs)

text \<open>
  The claim C3 as it is written fails on a view that has just been mounted: the
  revision has not changed since the first load, the container is shown, refresh is
  enabled, and the container becoming visible triggers no recompute.
\<close>

theorem became_visible_counterexample:
  "lastReload (run example_view [Render 7 0]) = revision (run example_view [Render 7 0]) \<and>
   isShown (run example_view [Render 7 0]) 7 \<and>
   refreshEnabled (view_settings (run example_view [Render 7 0])) \<and>
   computes (step (run example_view [Render 7 0]) (NodeInserted 7))
     = computes (run example_view [Render 7 0]) \<and>
   computes (step (run example_view [Render 7 0]) (NodeInserted 7))
     \<noteq> computes (run example_view [Render 7 0]) + 1"
  by (simp add: hook_defs)




end
